theory Spec2Isabelle
  imports Main "HOL-Library.Word" "HOL-Library.Multiset"
begin

section \<open>iomeshage: the file transfer engine of a mesh node\<close>

text \<open>
  A shallow embedding of the Go package \<open>iomeshage\<close> (functions \<open>info\<close>, \<open>Get\<close>,
  \<open>getParts\<close>, \<open>destroyTempTransfer\<close>, \<open>getPart\<close>, \<open>xfer\<close>, \<open>MITM\<close>, \<open>Status\<close>).
  The node's state is passed explicitly. Everything the node does not decide itself
  (random numbers, what the mesh answers and when, which forwarded responses pass through
  while a request is pending) is read from an environment \<open>Env\<close>, indexed by a counter
  kept in the state. The disk is a finite map from path names to nodes, with the
  operations of Go's \<open>os\<close>, \<open>ioutil\<close> and \<open>filepath\<close> packages that the code calls.

  Scope of the embedding: one goroutine runs at a time. The only interleaving that is
  modelled is the one the code itself guards against with \<open>Inflight\<close>: calls of \<open>MITM\<close>
  while \<open>xfer\<close> waits for its response. Locks, the admission queue (a semaphore), sleeps
  and log output are not modelled. \<open>int64\<close> part numbers are modelled as \<open>int\<close>, with
  values from \<open>-2^63\<close> to \<open>2^63 - 1\<close>. The loops that count from \<open>0\<close> up to \<open>msg.Part\<close> cannot
  wrap around; the subtraction \<open>msg.Part - 1\<close> before the shuffle can, and is modelled with
  its wrap-around (\<open>wrap64\<close>).
\<close>

unbundle bit_operations_syntax

subsection \<open>Paths and the disk\<close>

type_synonym bytes = string
type_synonym FileMode = "32 word"

datatype error =
    ErrInFlight
  | ErrTimeout
  | ErrNotFound string
  | ErrTransport
  | ErrNACK
  | ErrGhost
  | ErrIO

datatype node = DirNode | FileNode (content: bytes) (mode: FileMode)

type_synonym filesys = "string \<rightharpoonup> node"

definition digitChar :: "nat \<Rightarrow> char" where
  "digitChar n = ''0123456789'' ! (n mod 10)"

fun showNat :: "nat \<Rightarrow> string" where
  "showNat n = (if n < 10 then [digitChar n] else showNat (n div 10) @ [digitChar n])"

declare showNat.simps [simp del]

text \<open>\<open>fmt.Sprintf("%v", i)\<close> for an \<open>int64\<close>: the decimal numeral, with a sign.\<close>

definition showInt :: "int \<Rightarrow> string" where
  "showInt i = (if i < 0 then CHR ''-'' # showNat (nat (- i)) else showNat (nat i))"

definition stripSlashes :: "string \<Rightarrow> string" where
  "stripSlashes p = rev (dropWhile (\<lambda>c. c = CHR ''/'') (rev p))"

text \<open>
  \<open>filepath.Base\<close>: the last element of the path, after removing trailing separators;
  \<open>"."\<close> for the empty path and \<open>"/"\<close> for a path of separators only.
\<close>

definition Base :: "string \<Rightarrow> string" where
  "Base p =
     (if p = [] then ''.''
      else let q = stripSlashes p in
        if q = [] then ''/''
        else rev (takeWhile (\<lambda>c. c \<noteq> CHR ''/'') (rev q)))"

text \<open>
  \<open>filepath.Dir\<close>: all but the last element of the path, without trailing separators;
  \<open>"."\<close> when nothing is left of a relative path, \<open>"/"\<close> when nothing is left of an
  absolute one. (Paths are taken to be clean already: \<open>filepath.Clean\<close>, which rewrites
  \<open>"."\<close>, \<open>".."\<close> and doubled separators, is not modelled.)
\<close>

definition dirname :: "string \<Rightarrow> string" where
  "dirname p =
     (let d = rev (dropWhile (\<lambda>c. c \<noteq> CHR ''/'') (rev p)) in
      if d = [] then ''.''
      else let q = stripSlashes d in if q = [] then ''/'' else q)"

text \<open>\<open>filepath.Join\<close> of two clean elements: empty elements are ignored.\<close>

definition Join :: "string \<Rightarrow> string \<Rightarrow> string" where
  "Join a b = (if a = [] then b else if b = [] then a else a @ ''/'' @ b)"

text \<open>\<open>fmt.Sprintf("%v/%v.part_%v", dir, filepath.Base(filename), p)\<close>\<close>

definition partFile :: "string \<Rightarrow> string \<Rightarrow> int \<Rightarrow> string" where
  "partFile dir filename p = dir @ ''/'' @ Base filename @ ''.part_'' @ showInt p"

text \<open>The path \<open>q\<close> is the directory \<open>d\<close> or lies below it.\<close>

definition inDir :: "string \<Rightarrow> string \<Rightarrow> bool" where
  "inDir d q \<longleftrightarrow> q = d \<or> take (length d + 1) q = d @ ''/''"

text \<open>
  \<open>os.Open\<close> followed by reading everything, as \<open>io.Copy\<close> does. Opening fails only when
  the path does not exist; reading a directory yields an error that the caller ignores,
  so nothing is copied.
\<close>

definition openRead :: "filesys \<Rightarrow> string \<Rightarrow> bytes option" where
  "openRead d p =
     (case d p of None \<Rightarrow> None | Some DirNode \<Rightarrow> Some [] | Some (FileNode c m) \<Rightarrow> Some c)"

text \<open>
  \<open>ioutil.WriteFile\<close>: create or truncate, then write. An existing file keeps its mode.
  It fails on a directory and when the parent directory does not exist.
\<close>

definition WriteFile :: "filesys \<Rightarrow> string \<Rightarrow> bytes \<Rightarrow> FileMode \<Rightarrow> error + filesys" where
  "WriteFile d p dat perm =
     (case d p of
        Some DirNode \<Rightarrow> Inl ErrIO
      | Some (FileNode c m) \<Rightarrow> Inr (d(p \<mapsto> FileNode dat m))
      | None \<Rightarrow>
          if d (dirname p) = Some DirNode then Inr (d(p \<mapsto> FileNode dat perm))
          else Inl ErrIO)"

text \<open>
  \<open>ioutil.TempFile\<close> and \<open>ioutil.TempDir\<close>: the name is the prefix followed by the decimal
  numeral of a random number \<open>r\<close>; the entry must not exist yet and the directory must.
\<close>

definition TempFile :: "filesys \<Rightarrow> string \<Rightarrow> string \<Rightarrow> nat \<Rightarrow> error + (string \<times> filesys)" where
  "TempFile d dir pre r =
     (let nm = dir @ ''/'' @ pre @ showNat r in
      if d dir = Some DirNode \<and> d nm = None then Inr (nm, d(nm \<mapsto> FileNode [] 384))
      else Inl ErrIO)"

definition TempDir :: "filesys \<Rightarrow> string \<Rightarrow> string \<Rightarrow> nat \<Rightarrow> error + (string \<times> filesys)" where
  "TempDir d dir pre r =
     (let nm = dir @ ''/'' @ pre @ showNat r in
      if d dir = Some DirNode \<and> d nm = None then Inr (nm, d(nm \<mapsto> DirNode))
      else Inl ErrIO)"

text \<open>
  \<open>os.MkdirAll\<close>: nothing to do for a directory, an error for a file, and otherwise the
  parent first, then the directory itself.
\<close>

function MkdirAll :: "filesys \<Rightarrow> string \<Rightarrow> error + filesys" where
  "MkdirAll d p =
     (case d p of
        Some DirNode \<Rightarrow> Inr d
      | Some (FileNode c m) \<Rightarrow> Inl ErrIO
      | None \<Rightarrow>
          if length (dirname p) < length p then
            (case MkdirAll d (dirname p) of
               Inl e \<Rightarrow> Inl e
             | Inr d1 \<Rightarrow> Inr (d1(p \<mapsto> DirNode)))
          else Inr (d(p \<mapsto> DirNode)))"
  by pat_completeness auto
termination
  by (relation "measure (\<lambda>(d, p). length p)") auto

declare MkdirAll.simps [simp del]

text \<open>
  \<open>os.Rename\<close> of a file: the source must exist, the target must not be a directory and
  its parent must be one. An existing target file is replaced.
\<close>

definition Rename :: "filesys \<Rightarrow> string \<Rightarrow> string \<Rightarrow> error + filesys" where
  "Rename d old new =
     (case d old of
        None \<Rightarrow> Inl ErrIO
      | Some n \<Rightarrow>
          if d new = Some DirNode \<or> d (dirname new) \<noteq> Some DirNode then Inl ErrIO
          else Inr ((d(old := None))(new \<mapsto> n)))"

text \<open>
  \<open>os.Chmod\<close> does not take the whole mode word: it takes the nine permission bits
  (\<open>ModePerm\<close>, \<open>0777\<close>) and the flags \<open>ModeSetuid\<close>, \<open>ModeSetgid\<close> and \<open>ModeSticky\<close> (bits \<open>23\<close>,
  \<open>22\<close> and \<open>20\<close> of an \<open>os.FileMode\<close>) and ignores every other bit.
\<close>

definition ModePerm :: FileMode where
  "ModePerm = 511"

definition ModeSetuid :: FileMode where
  "ModeSetuid = push_bit 23 1"

definition ModeSetgid :: FileMode where
  "ModeSetgid = push_bit 22 1"

definition ModeSticky :: FileMode where
  "ModeSticky = push_bit 20 1"

definition chmodBits :: "FileMode \<Rightarrow> FileMode" where
  "chmodBits perm = perm AND (ModePerm OR ModeSetuid OR ModeSetgid OR ModeSticky)"

definition Chmod :: "filesys \<Rightarrow> string \<Rightarrow> FileMode \<Rightarrow> error + filesys" where
  "Chmod d p perm =
     (case d p of
        None \<Rightarrow> Inl ErrIO
      | Some DirNode \<Rightarrow> Inr d
      | Some (FileNode c m) \<Rightarrow> Inr (d(p \<mapsto> FileNode c (chmodBits perm))))"

text \<open>\<open>os.RemoveAll\<close>: the directory and everything below it.\<close>

definition RemoveAll :: "filesys \<Rightarrow> string \<Rightarrow> filesys" where
  "RemoveAll d dir = (\<lambda>q. if inDir dir q then None else d q)"

text \<open>
  Modelled from the spec: the helper \<open>touch(fname, perm)\<close> is not among the sources. The
  specification says of it: "create an empty file with the declared permissions". It
  names no way for it to fail, so the model has none; the caller's error branch is kept.
\<close>

definition touch :: "filesys \<Rightarrow> string \<Rightarrow> FileMode \<Rightarrow> error + filesys" where
  "touch d fname perm = Inr (d(fname \<mapsto> FileNode [] perm))"

subsection \<open>Messages, transfers, the node\<close>

datatype mtype = TYPE_INFO | TYPE_WHOHAS | TYPE_XFER | TYPE_RESPONSE

text \<open>
  Modelled from the spec: the declaration of \<open>Message\<close> is not among the sources. The
  fields are the ones the code reads and writes, with the meaning of section 3 of the
  specification.
\<close>

record Message =
  From :: string
  Type :: mtype
  Filename :: string
  Perm :: FileMode
  Glob :: "string list"
  Part :: int
  TID :: int
  ACK :: bool
  Data :: bytes

text \<open>
  \<open>Transfer\<close>, with the type of \<open>Parts\<close> as a parameter: the map itself where only its
  contents matter, the address of the map where sharing matters (\<open>Status\<close>).
\<close>

record 'p Transfer =
  Dir :: string
  Filename :: string
  Parts :: 'p
  NumParts :: int
  Inflight :: int
  Queued :: bool

type_synonym partmap = "int \<rightharpoonup> bool"

text \<open>\<open>t.Parts[p]\<close>: a missing key of a \<open>map[int64]bool\<close> reads as \<open>false\<close>.\<close>

definition hasPart :: "partmap Transfer \<Rightarrow> int \<Rightarrow> bool" where
  "hasPart t p = (case Parts t p of Some b \<Rightarrow> b | None \<Rightarrow> False)"

datatype outmsg = Broadcast Message | Directed "string list" Message

text \<open>
  Modelled from the spec: the type \<open>Files\<close> with \<open>NewFiles\<close>, \<open>add\<close> and \<open>messages\<close> is not
  among the sources. The specification: "Aggregate ACKs; retain for each responding
  peer: filename, part count, digest (if present), glob list (if present)". The model
  keeps the acknowledged responses in the order they were added.
\<close>

record Files =
  fhead :: string
  fhash :: bool
  messages :: "Message list"

definition NewFiles :: "string \<Rightarrow> bool \<Rightarrow> Files" where
  "NewFiles h b = \<lparr>fhead = h, fhash = b, messages = []\<rparr>"

definition add :: "Files \<Rightarrow> Message \<Rightarrow> Files" where
  "add info resp = info\<lparr>messages := messages info @ [resp]\<rparr>"

text \<open>
  The node. \<open>disk\<close> is the file system it works on, \<open>sent\<close> the messages it has handed to
  the mesh so far, \<open>spawned\<close> the arguments of the \<open>getParts\<close> goroutines it has started,
  \<open>ticks\<close> the number of values read from the environment.
\<close>

record IOMeshage =
  base :: string
  name :: string
  head :: string
  hash :: bool
  transfers :: "string \<rightharpoonup> partmap Transfer"
  disk :: filesys
  sent :: "outmsg list"
  spawned :: "Message list"
  ticks :: nat

datatype bcast = BcastErr | BcastOK (recipients: "string list") (events: "Message option list")

datatype xreply = XTimeout | XResp Message

datatype xferEnv = XferEnv (sendOK: bool) (snoops: "Message list") (reply: xreply)

text \<open>
  The environment. \<open>randAt n\<close> is the random number drawn at tick \<open>n\<close>. \<open>bcastAt n\<close> is the
  fate of a broadcast made at tick \<open>n\<close>: an error of the transport, or the recipients
  and what then happens on the response channel, one event per wait: \<open>Some resp\<close> for a
  response, \<open>None\<close> for the timer firing first (a channel on which nothing more happens
  also ends in the timer firing). \<open>xferAt n\<close> is the fate of a directed XFER request: whether
  the send succeeds, the forwarded responses that pass through \<open>MITM\<close> while the request
  is pending, and the reply. \<open>use\<close> and \<open>getHash\<close> are the peer selection of \<open>Files\<close> and the
  hash index, neither among the sources: \<open>use\<close> returns the chosen response (or no
  response when the local copy is good) and whether a choice was possible.
\<close>

record Env =
  randAt :: "nat \<Rightarrow> nat"
  bcastAt :: "nat \<Rightarrow> bcast"
  xferAt :: "nat \<Rightarrow> xferEnv"
  use :: "Files \<Rightarrow> string \<Rightarrow> string \<Rightarrow> bool \<Rightarrow> Message option \<times> bool"
  getHash :: "IOMeshage \<Rightarrow> string \<Rightarrow> string"

definition MAX_ATTEMPTS :: nat where
  "MAX_ATTEMPTS = 3"

definition tick :: "IOMeshage \<Rightarrow> IOMeshage" where
  "tick st = st\<lparr>ticks := Suc (ticks st)\<rparr>"

subsection \<open>Collecting INFO responses\<close>

text \<open>
  The loop of \<open>info\<close>: \<open>n\<close> waits, each a \<open>select\<close> between the response channel and the
  timer. A response with \<open>ACK\<close> is added; the timer ends the collection with an error.
\<close>

fun infoCollect :: "nat \<Rightarrow> Message option list \<Rightarrow> Files \<Rightarrow> error + Files" where
  "infoCollect 0 evs acc = Inr acc"
| "infoCollect (Suc n) [] acc = Inl ErrTimeout"
| "infoCollect (Suc n) (None # evs) acc = Inl ErrTimeout"
| "infoCollect (Suc n) (Some resp # evs) acc =
     infoCollect n evs (if ACK resp then add acc resp else acc)"

definition info :: "Env \<Rightarrow> IOMeshage \<Rightarrow> string \<Rightarrow> (error + Files) \<times> IOMeshage" where
  "info E st file =
     (let m = \<lparr>From = name st, Type = TYPE_INFO, Message.Filename = file, Perm = 0,
               Glob = [], Part = 0, TID = int (randAt E (ticks st)), ACK = False, Data = []\<rparr>;
          st1 = tick st
      in case bcastAt E (ticks st) of
           BcastErr \<Rightarrow> (Inl ErrTransport, st1)
         | BcastOK rs evs \<Rightarrow>
             (infoCollect (length rs) evs (NewFiles (head st) (hash st)),
              st1\<lparr>sent := sent st1 @ [Broadcast m]\<rparr>))"

subsection \<open>The shuffle\<close>

text \<open>
  The Fisher-Yates loop \<open>for i = n - 1; i > 0; i-- { j := rand.Int63n(i + 1); swap }\<close>,
  started at \<open>i\<close>, drawing from tick \<open>t\<close> on. \<open>Int63n(i + 1)\<close> is a number below \<open>i + 1\<close>.
\<close>

fun shuffle :: "(nat \<Rightarrow> nat) \<Rightarrow> nat \<Rightarrow> nat \<Rightarrow> 'a list \<Rightarrow> 'a list" where
  "shuffle r t 0 xs = xs"
| "shuffle r t (Suc k) xs =
     (let i = Suc k; j = r t mod (i + 1)
      in shuffle r (Suc t) k (xs[j := xs ! i, i := xs ! j]))"

subsection \<open>Get\<close>

text \<open>
  The loop over the entries of one glob response. \<open>rec\<close> is the recursive call of \<open>Get\<close>;
  it returns \<open>None\<close> when the recursion was cut off. An "in flight" error of an entry is
  ignored, any other ends the loop.
\<close>

fun getGlob ::
  "(IOMeshage \<Rightarrow> string \<Rightarrow> (error option \<times> IOMeshage) option) \<Rightarrow> (string \<Rightarrow> bool) \<Rightarrow>
   IOMeshage \<Rightarrow> string list \<Rightarrow> (error option \<times> IOMeshage) option" where
  "getGlob rec inflight st [] = Some (None, st)"
| "getGlob rec inflight st (x # xs) =
     (if inflight x then getGlob rec inflight st xs
      else case rec st x of
             None \<Rightarrow> None
           | Some (None, st1) \<Rightarrow> getGlob rec inflight st1 xs
           | Some (Some e, st1) \<Rightarrow>
               if e = ErrInFlight then getGlob rec inflight st1 xs
               else Some (Some e, st1))"

text \<open>
  The loop over \<open>info.messages()\<close>. A response without a glob list starts a transfer,
  unless one was started for that name in this call, no peer can be chosen or the local
  copy is good: a scratch directory is made, the \<open>Transfer\<close> is registered under the name
  of the chosen response and \<open>getParts\<close> is started. A response with a glob list is
  shuffled and \<open>Get\<close> is called on each entry.
\<close>

fun getMessages ::
  "(IOMeshage \<Rightarrow> string \<Rightarrow> (error option \<times> IOMeshage) option) \<Rightarrow> Env \<Rightarrow> Files \<Rightarrow> bool \<Rightarrow>
   (string \<Rightarrow> bool) \<Rightarrow> IOMeshage \<Rightarrow> Message list \<Rightarrow> (error option \<times> IOMeshage) option" where
  "getMessages rec E fls ex inflight st [] = Some (None, st)"
| "getMessages rec E fls ex inflight st (v # vs) =
     (if length (Glob v) = 0 then
        (if inflight (Message.Filename v) then getMessages rec E fls ex inflight st vs
         else case use E fls (Message.Filename v) (getHash E st (Message.Filename v)) ex of
                (u, False) \<Rightarrow> getMessages rec E fls ex inflight st vs
              | (None, True) \<Rightarrow> getMessages rec E fls ex inflight st vs
              | (Some u, True) \<Rightarrow>
                  (case TempDir (disk st) (base st) ''transfer_'' (randAt E (ticks st)) of
                     Inl e \<Rightarrow> Some (Some e, tick st)
                   | Inr (tdir, d1) \<Rightarrow>
                       let transfer = \<lparr>Dir = tdir, Filename = Message.Filename u,
                                       Parts = Map.empty, NumParts = Part u,
                                       Inflight = - 1, Queued = True\<rparr>;
                           st1 = (tick st)\<lparr>disk := d1,
                                   transfers := (transfers st)(Message.Filename u \<mapsto> transfer),
                                   spawned := spawned st @ [u]\<rparr>
                       in getMessages rec E fls ex
                            (inflight(Message.Filename u := True)) st1 vs))
      else
        (let n = length (Glob v);
             g = shuffle (randAt E) (ticks st) (n - 1) (Glob v);
             st1 = st\<lparr>ticks := ticks st + (n - 1)\<rparr>
         in case getGlob rec inflight st1 g of
              None \<Rightarrow> None
            | Some (Some e, st2) \<Rightarrow> Some (Some e, st2)
            | Some (None, st2) \<Rightarrow> getMessages rec E fls ex inflight st2 vs))"

text \<open>\<open>fi, err := os.Stat(path)\<close> with \<open>err == nil && !fi.IsDir()\<close>.\<close>

definition isRegular :: "filesys \<Rightarrow> string \<Rightarrow> bool" where
  "isRegular d p = (case d p of Some (FileNode c m) \<Rightarrow> True | _ \<Rightarrow> False)"

text \<open>
  The body of \<open>Get\<close>, with the recursive call as a parameter. The result is the error
  returned (\<open>None\<close> for \<open>nil\<close>) and the state. \<open>isFile\<close> is the outcome of the test on
  \<open>os.Stat\<close>; past the first return it is the value of \<open>exists\<close>.
\<close>

definition getBody ::
  "(IOMeshage \<Rightarrow> string \<Rightarrow> (error option \<times> IOMeshage) option) \<Rightarrow> Env \<Rightarrow>
   IOMeshage \<Rightarrow> string \<Rightarrow> (error option \<times> IOMeshage) option" where
  "getBody rec E st file =
     (let isFile = isRegular (disk st) (Join (base st) file)
      in if isFile \<and> head st = [] then Some (None, st)
         else
           let ex = isFile in
           if transfers st file \<noteq> None then Some (Some ErrInFlight, st)
           else case info E st file of
                  (Inl e, st1) \<Rightarrow> Some (Some e, st1)
                | (Inr fls, st1) \<Rightarrow>
                    if length (messages fls) = 0 then Some (Some (ErrNotFound file), st1)
                    else getMessages rec E fls ex (\<lambda>x. False) st1 (messages fls))"

text \<open>
  \<open>Get\<close> calls itself on the entries of glob responses, and the peers decide how deep
  that goes. The first argument bounds the depth of the recursion; \<open>None\<close> is the result
  of a call that would go deeper.
\<close>

primrec Get :: "nat \<Rightarrow> Env \<Rightarrow> IOMeshage \<Rightarrow> string \<Rightarrow> (error option \<times> IOMeshage) option" where
  "Get 0 E st file = None"
| "Get (Suc n) E st file = getBody (Get n E) E st file"

subsection \<open>The snoop cache\<close>

text \<open>
  \<open>MITM\<close>: a forwarded response with payload is written out as a part file when a
  transfer for its file exists, the part is not the one in flight and is not there yet.
  A failed write leaves the transfer as it was. The part file is named after the
  transfer's own \<open>Filename\<close>.
\<close>

definition MITM :: "IOMeshage \<Rightarrow> Message \<Rightarrow> IOMeshage" where
  "MITM st m =
     (if Type m \<noteq> TYPE_RESPONSE \<or> \<not> ACK m \<or> length (Data m) = 0 then st
      else case transfers st (Message.Filename m) of
             None \<Rightarrow> st
           | Some f \<Rightarrow>
               if Inflight f = Part m then st
               else if \<not> hasPart f (Part m) then
                 (case WriteFile (disk st) (partFile (Dir f) (Filename f) (Part m)) (Data m) 436 of
                    Inl e \<Rightarrow> st
                  | Inr d1 \<Rightarrow>
                      st\<lparr>disk := d1,
                         transfers := (transfers st)(Message.Filename m \<mapsto>
                                        f\<lparr>Parts := (Parts f)(Part m \<mapsto> True)\<rparr>)\<rparr>)
               else st)"

subsection \<open>Fetching the parts\<close>

text \<open>
  \<open>xfer\<close>: a directed XFER request to the peer of the chosen response, then one wait for
  the response or the timer. A failed send records no message. The forwarded responses
  that pass through while the request is pending are handled by \<open>MITM\<close>.
\<close>

definition xfer :: "Env \<Rightarrow> IOMeshage \<Rightarrow> Message \<Rightarrow> int \<Rightarrow> (error + bytes) \<times> IOMeshage" where
  "xfer E st msg part =
     (let x = xferAt E (ticks st);
          m = \<lparr>From = name st, Type = TYPE_XFER, Message.Filename = Message.Filename msg,
               Perm = 0, Glob = [], Part = part, TID = int (randAt E (ticks st)),
               ACK = False, Data = []\<rparr>;
          st1 = tick st
      in if \<not> sendOK x then (Inl ErrTransport, st1)
         else
           let st2 = st1\<lparr>sent := sent st1 @ [Directed [From msg] m]\<rparr>;
               st3 = foldl MITM st2 (snoops x)
           in case reply x of
                XTimeout \<Rightarrow> (Inl ErrTimeout, st3)
              | XResp resp \<Rightarrow>
                  if ACK resp then (Inr (Data resp), st3) else (Inl ErrNACK, st3))"

text \<open>
  What a call returns: \<open>nil\<close>, an error, or a panic (a field of a \<open>Transfer\<close> read through
  the \<open>nil\<close> pointer that a missing map entry yields).
\<close>

datatype ret = Nil | Err error | Panic

definition getPart :: "Env \<Rightarrow> IOMeshage \<Rightarrow> Message \<Rightarrow> int \<Rightarrow> ret \<times> IOMeshage" where
  "getPart E st msg p =
     (case transfers st (Message.Filename msg) of
        None \<Rightarrow> (Panic, st)
      | Some t0 \<Rightarrow>
          if hasPart t0 p then (Nil, st)
          else
            let st1 = st\<lparr>transfers := (transfers st)(Message.Filename msg \<mapsto> t0\<lparr>Inflight := p\<rparr>)\<rparr>
            in (case xfer E st1 msg p of
                  (Inl e, st2) \<Rightarrow> (Err e, st2)
                | (Inr dat, st2) \<Rightarrow>
                    (case transfers st2 (Message.Filename msg) of
                       None \<Rightarrow> (Err ErrGhost, st2)
                     | Some t \<Rightarrow>
                         (case WriteFile (disk st2) (partFile (Dir t) (Message.Filename msg) p) dat 436 of
                            Inl e \<Rightarrow> (Err e, st2)
                          | Inr d1 \<Rightarrow>
                              (Nil, st2\<lparr>disk := d1,
                                        transfers := (transfers st2)(Message.Filename msg \<mapsto>
                                                       t\<lparr>Parts := (Parts t)(p \<mapsto> True)\<rparr>)\<rparr>)))))"

text \<open>
  The inner loop \<open>for attempt := 0; attempt < MAX_ATTEMPTS; attempt++\<close>, by the number of
  attempts that are left. \<open>True\<close> is the \<open>continue Outer\<close> after a success, \<open>False\<close> the
  end of the loop.
\<close>

fun attempts :: "Env \<Rightarrow> nat \<Rightarrow> IOMeshage \<Rightarrow> Message \<Rightarrow> int \<Rightarrow> bool option \<times> IOMeshage" where
  "attempts E 0 st msg p = (Some False, st)"
| "attempts E (Suc k) st msg p =
     (case getPart E st msg p of
        (Panic, st1) \<Rightarrow> (None, st1)
      | (Err e, st1) \<Rightarrow> attempts E k st1 msg p
      | (Nil, st1) \<Rightarrow> (Some True, st1))"

text \<open>How \<open>getParts\<close> ends.\<close>

datatype outcome =
    EmptyCreated
  | TouchFailed
  | PartExhausted int
  | OpenFailed
  | MkdirFailed
  | Finished
  | Panicked

text \<open>
  The loop \<open>Outer\<close> over the shuffled parts. The result is \<open>None\<close> when all parts were
  dealt with, and the way the function ends otherwise.
\<close>

fun fetchParts :: "Env \<Rightarrow> IOMeshage \<Rightarrow> Message \<Rightarrow> int list \<Rightarrow> outcome option \<times> IOMeshage" where
  "fetchParts E st msg [] = (None, st)"
| "fetchParts E st msg (p # ps) =
     (case attempts E MAX_ATTEMPTS st msg p of
        (None, st1) \<Rightarrow> (Some Panicked, st1)
      | (Some True, st1) \<Rightarrow> fetchParts E st1 msg ps
      | (Some False, st1) \<Rightarrow>
          (case transfers st1 (Message.Filename msg) of
             None \<Rightarrow> (Some Panicked, st1)
           | Some t \<Rightarrow>
               if \<not> hasPart t p then (Some (PartExhausted p), st1)
               else fetchParts E st1 msg ps))"

text \<open>
  The loop that copies the part files \<open>0, 1, ...\<close> into the assembly file. \<open>tfile\<close> is
  the name of the assembly file, \<open>None\<close> when it could not be created: writing through
  the \<open>nil\<close> file is an error that \<open>io.Copy\<close> returns and the code ignores. The result is
  \<open>False\<close> when a part file could not be opened.
\<close>

definition appendTo :: "filesys \<Rightarrow> string option \<Rightarrow> bytes \<Rightarrow> filesys" where
  "appendTo d tfile c =
     (case tfile of
        None \<Rightarrow> d
      | Some nm \<Rightarrow>
          (case d nm of
             Some (FileNode c0 m) \<Rightarrow> d(nm \<mapsto> FileNode (c0 @ c) m)
           | _ \<Rightarrow> d))"

fun catParts :: "filesys \<Rightarrow> string option \<Rightarrow> string \<Rightarrow> string \<Rightarrow> int list \<Rightarrow> bool \<times> filesys" where
  "catParts d tfile dir filename [] = (True, d)"
| "catParts d tfile dir filename (i # is) =
     (case openRead d (partFile dir filename i) of
        None \<Rightarrow> (False, d)
      | Some c \<Rightarrow> catParts (appendTo d tfile c) tfile dir filename is)"

text \<open>
  The end of \<open>getParts\<close>, after "got all parts": assembly file, concatenation, target
  directory, rename, permissions. The error of \<open>os.Rename\<close> is not looked at. When the
  assembly file could not be created, \<open>tfile.Name()\<close> panics.
\<close>

definition assemble :: "Env \<Rightarrow> IOMeshage \<Rightarrow> Message \<Rightarrow> outcome \<times> IOMeshage" where
  "assemble E st msg =
     (case transfers st (Message.Filename msg) of
        None \<Rightarrow> (Panicked, st)
      | Some t \<Rightarrow>
          let (tfile, d1) =
                (case TempFile (disk st) (Dir t) ''cat_'' (randAt E (ticks st)) of
                   Inl e \<Rightarrow> (None, disk st)
                 | Inr (nm, d) \<Rightarrow> (Some nm, d));
              st1 = tick st
          in (case catParts d1 tfile (Dir t) (Message.Filename msg) [0 .. Part msg - 1] of
                (False, d2) \<Rightarrow> (OpenFailed, st1\<lparr>disk := d2\<rparr>)
              | (True, d2) \<Rightarrow>
                  (case tfile of
                     None \<Rightarrow> (Panicked, st1\<lparr>disk := d2\<rparr>)
                   | Some nm \<Rightarrow>
                       (let fullPath = Join (base st) (Message.Filename msg) in
                        (case MkdirAll d2 (dirname fullPath) of
                           Inl e \<Rightarrow> (MkdirFailed, st1\<lparr>disk := d2\<rparr>)
                         | Inr d3 \<Rightarrow>
                             let d4 = (case Rename d3 nm fullPath of Inl e \<Rightarrow> d3 | Inr d \<Rightarrow> d);
                                 d5 = (case Chmod d4 fullPath (Perm msg) of Inl e \<Rightarrow> d4 | Inr d \<Rightarrow> d)
                             in (Finished, st1\<lparr>disk := d5\<rparr>))))))"

definition destroyTempTransfer :: "IOMeshage \<Rightarrow> string \<Rightarrow> IOMeshage" where
  "destroyTempTransfer st filename =
     (case transfers st filename of
        None \<Rightarrow> st
      | Some t \<Rightarrow>
          st\<lparr>disk := RemoveAll (disk st) (Dir t),
             transfers := (transfers st)(filename := None)\<rparr>)"

text \<open>An \<open>int64\<close> result: the value wrapped into the range from \<open>-2^63\<close> to \<open>2^63 - 1\<close>.\<close>

definition wrap64 :: "int \<Rightarrow> int" where
  "wrap64 i = (i + 2 ^ 63) mod 2 ^ 64 - 2 ^ 63"

text \<open>
  The first half of \<open>getParts\<close> for a file with parts: the list of parts, the shuffle,
  \<open>Queued = false\<close>, the loop \<open>Outer\<close>. The shuffle starts at \<open>i = msg.Part - 1\<close>, an \<open>int64\<close>
  subtraction. For the smallest part count it wraps around to the largest value: the
  loop is entered, \<open>i + 1\<close> wraps around in turn, and \<open>rand.Int63n\<close> panics on an argument
  that is not positive. An index \<open>i\<close> outside of the list would panic as well (no part
  count in the range of \<open>int64\<close> leads there). Both happen in the first round, before
  anything is changed.
\<close>

definition fetchAll :: "Env \<Rightarrow> IOMeshage \<Rightarrow> Message \<Rightarrow> outcome option \<times> IOMeshage" where
  "fetchAll E st msg =
     (let parts0 = [0 .. Part msg - 1];
          i0 = wrap64 (Part msg - 1)
      in if 0 < i0 \<and> (wrap64 (i0 + 1) \<le> 0 \<or> length parts0 \<le> nat i0) then (Some Panicked, st)
         else
           (let parts = shuffle (randAt E) (ticks st) (nat i0) parts0;
                st1 = st\<lparr>ticks := ticks st + nat i0\<rparr>
            in (case transfers st1 (Message.Filename msg) of
                  None \<Rightarrow> (Some Panicked, st1)
                | Some t \<Rightarrow>
                    fetchParts E
                      (st1\<lparr>transfers := (transfers st1)(Message.Filename msg \<mapsto> t\<lparr>Queued := False\<rparr>)\<rparr>)
                      msg parts)))"

text \<open>\<open>getParts\<close> without the deferred \<open>destroyTempTransfer\<close>.\<close>

definition getPartsBody :: "Env \<Rightarrow> IOMeshage \<Rightarrow> Message \<Rightarrow> outcome \<times> IOMeshage" where
  "getPartsBody E st msg =
     (if Part msg = 0 then
        (case touch (disk st) (Join (base st) (Message.Filename msg)) (Perm msg) of
           Inl e \<Rightarrow> (TouchFailed, st)
         | Inr d1 \<Rightarrow> (EmptyCreated, st\<lparr>disk := d1\<rparr>))
      else
        (case fetchAll E st msg of
           (Some out, st3) \<Rightarrow> (out, st3)
         | (None, st3) \<Rightarrow> assemble E st3 msg))"

text \<open>The deferred call runs however the body ends.\<close>

definition getParts :: "Env \<Rightarrow> IOMeshage \<Rightarrow> Message \<Rightarrow> outcome \<times> IOMeshage" where
  "getParts E st msg =
     (case getPartsBody E st msg of
        (out, st1) \<Rightarrow> (out, destroyTempTransfer st1 (Message.Filename msg)))"



text \<open>The path \<open>q\<close> lies in the scratch directory of a registered transfer.\<close>

definition scratchPath :: "IOMeshage \<Rightarrow> string \<Rightarrow> bool" where
  "scratchPath st q \<longleftrightarrow> (\<exists>g t. transfers st g = Some t \<and> inDir (Dir t) q)"

text \<open>
  Two relations between the state before and after a step of the fetch loop, for the
  proofs. \<open>keepsOutside\<close>: the same base, the same transfers with the same scratch
  directories, and the same disk outside of them. \<open>addsXfers\<close>: what the step has sent
  are at most \<open>k\<close> messages, all of them XFER requests for part \<open>p\<close> of the file.
\<close>

definition keepsOutside :: "IOMeshage \<Rightarrow> IOMeshage \<Rightarrow> bool" where
  "keepsOutside st st' \<longleftrightarrow>
     base st' = base st \<and>
     (\<forall>g. map_option Dir (transfers st' g) = map_option Dir (transfers st g)) \<and>
     (\<forall>q. \<not> scratchPath st q \<longrightarrow> disk st' q = disk st q)"


subsection \<open>Status\<close>

text \<open>
  \<open>Status\<close> hands out pointers, and a Go map is a reference: what a caller can reach
  through the result depends on which objects are shared. So here the \<open>Transfer\<close>
  structs and the \<open>Parts\<close> maps live in a store, a \<open>Transfer\<close> holds the address of its
  map, and the node's \<open>transfers\<close> map holds addresses of structs. It is given as the
  list of its entries in the order in which \<open>range\<close> visits them.
\<close>

type_synonym addr = nat

record store =
  structs :: "addr \<rightharpoonup> addr Transfer"
  maps :: "addr \<rightharpoonup> partmap"
  nextAddr :: addr

text \<open>
  One round of the loop for each entry: \<open>t2 := new(Transfer)\<close>, \<open>*t2 = *t\<close>,
  \<open>t2.Parts = make(map[int64]bool)\<close>, then the copy of every entry of \<open>t.Parts\<close> (a \<open>nil\<close>
  map has none), after which the new map holds what the old one holds. A \<open>nil\<close> pointer
  among the entries would make \<open>*t\<close> panic: the result \<open>None\<close>.
\<close>

fun StatusLoop :: "store \<Rightarrow> addr list \<Rightarrow> addr list \<Rightarrow> (addr list \<times> store) option" where
  "StatusLoop h res [] = Some (res, h)"
| "StatusLoop h res (a # as) =
     (case structs h a of
        None \<Rightarrow> None
      | Some t \<Rightarrow>
          let t2 = nextAddr h;
              h1 = h\<lparr>structs := (structs h)(t2 \<mapsto> t), nextAddr := Suc (nextAddr h)\<rparr>;
              pm = nextAddr h1;
              h2 = h1\<lparr>maps := (maps h1)(pm \<mapsto> Map.empty), nextAddr := Suc (nextAddr h1)\<rparr>;
              h3 = h2\<lparr>structs := (structs h2)(t2 \<mapsto> t\<lparr>Parts := pm\<rparr>)\<rparr>;
              src = (case maps h3 (Parts t) of Some m \<Rightarrow> m | None \<Rightarrow> Map.empty);
              h4 = h3\<lparr>maps := (maps h3)(pm \<mapsto> src)\<rparr>
          in StatusLoop h4 (res @ [t2]) as)"

definition Status :: "store \<Rightarrow> (string \<times> addr) list \<Rightarrow> (addr list \<times> store) option" where
  "Status h tm = StatusLoop h [] (map snd tm)"

text \<open>
  What a pointer to a \<open>Transfer\<close> stands for: the struct with the contents of its map.
  \<open>view\<close> is the node's \<open>transfers\<close> map read in this way.
\<close>

definition deref :: "store \<Rightarrow> addr \<Rightarrow> partmap Transfer option" where
  "deref h a =
     (case structs h a of
        None \<Rightarrow> None
      | Some t \<Rightarrow>
          Some \<lparr>Dir = Dir t, Filename = Filename t,
                Parts = (case maps h (Parts t) of Some m \<Rightarrow> m | None \<Rightarrow> Map.empty),
                NumParts = NumParts t, Inflight = Inflight t, Queued = Queued t\<rparr>)"

definition view :: "store \<Rightarrow> (string \<times> addr) list \<Rightarrow> (string \<times> partmap Transfer option) list" where
  "view h tm = map (\<lambda>(k, a). (k, deref h a)) tm"

text \<open>
  The store is in order for a \<open>transfers\<close> map when every struct in the map is allocated
  and fresh addresses lie above the structs and maps that the node reaches.
\<close>

definition wfStore :: "store \<Rightarrow> (string \<times> addr) list \<Rightarrow> bool" where
  "wfStore h tm \<longleftrightarrow>
     (\<forall>a \<in> set (map snd tm). a < nextAddr h \<and>
        (case structs h a of None \<Rightarrow> False | Some t \<Rightarrow> Parts t < nextAddr h))"

subsection \<open>Sample inputs\<close>

text \<open>An environment in which no peer ever answers.\<close>

definition quietEnv :: Env where
  "quietEnv =
     \<lparr>randAt = (\<lambda>n. n), bcastAt = (\<lambda>n. BcastOK [] []),
      xferAt = (\<lambda>n. XferEnv True [] XTimeout),
      use = (\<lambda>fls f h ex. (None, False)), getHash = (\<lambda>st f. [])\<rparr>"

text \<open>A node that is fetching the two parts of \<open>f\<close>, none of them there yet.\<close>

definition fTransfer :: "partmap Transfer" where
  "fTransfer =
     \<lparr>Dir = ''/srv/transfer_7'', Filename = ''f'', Parts = Map.empty,
      NumParts = 2, Inflight = - 1, Queued = True\<rparr>"

definition fNode :: IOMeshage where
  "fNode =
     \<lparr>base = ''/srv'', name = ''b'', head = [], hash = False,
      transfers = [''f'' \<mapsto> fTransfer],
      disk = [''/srv'' \<mapsto> DirNode, ''/srv/transfer_7'' \<mapsto> DirNode],
      sent = [], spawned = [], ticks = 0\<rparr>"

text \<open>The same node with a regular file \<open>f\<close> already in its base directory.\<close>

definition fNodeLocal :: IOMeshage where
  "fNodeLocal = fNode\<lparr>disk := (disk fNode)(''/srv/f'' \<mapsto> FileNode ''old'' 420)\<rparr>"

text \<open>The response (to an INFO request) that \<open>getParts\<close> is started with.\<close>

definition fInfo :: Message where
  "fInfo =
     \<lparr>From = ''a'', Type = TYPE_RESPONSE, Message.Filename = ''f'', Perm = 420,
      Glob = [], Part = 2, TID = 1, ACK = True, Data = []\<rparr>"

text \<open>A response that carries part \<open>p\<close> of \<open>f\<close>.\<close>

definition fPart :: "int \<Rightarrow> bytes \<Rightarrow> Message" where
  "fPart p dat =
     \<lparr>From = ''a'', Type = TYPE_RESPONSE, Message.Filename = ''f'', Perm = 420,
      Glob = [], Part = p, TID = 2, ACK = True, Data = dat\<rparr>"

text \<open>
  An environment in which two recipients get an INFO request, one answers and then the
  timer fires.
\<close>

definition lateEnv :: Env where
  "lateEnv = quietEnv\<lparr>bcastAt := (\<lambda>n. BcastOK [''a'', ''c''] [Some fInfo, None])\<rparr>"

text \<open>
  An environment in which the peer answers every XFER request. With these random
  numbers part \<open>1\<close> of a file of two parts is asked for first, at tick \<open>1\<close>.
\<close>

definition ackEnv :: Env where
  "ackEnv =
     quietEnv\<lparr>xferAt := (\<lambda>n. XferEnv True []
                 (XResp (if n = 1 then fPart 1 ''cd'' else fPart 0 ''ab'')))\<rparr>"

text \<open>
  A node that is fetching the two parts of \<open>d/f\<close>, while \<open>d\<close> is a regular file in its
  base directory, and the response that \<open>getParts\<close> is started with.
\<close>

definition dNode :: IOMeshage where
  "dNode =
     fNode\<lparr>transfers := [''d/f'' \<mapsto> fTransfer\<lparr>Filename := ''d/f''\<rparr>],
           disk := (disk fNode)(''/srv/d'' \<mapsto> FileNode ''x'' 420)\<rparr>"

definition dInfo :: Message where
  "dInfo = fInfo\<lparr>Message.Filename := ''d/f''\<rparr>"

text \<open>A store with the \<open>Transfer\<close> of \<open>f\<close>, part \<open>0\<close> done, and the node's map onto it.\<close>

definition fStore :: store where
  "fStore =
     \<lparr>structs = [0 \<mapsto> \<lparr>Dir = ''/srv/transfer_7'', Filename = ''f'', Parts = 1,
                         NumParts = 2, Inflight = 0, Queued = False\<rparr>],
      maps = [1 \<mapsto> [0 \<mapsto> True]],
      nextAddr = 2\<rparr>"

definition fMap :: "(string \<times> addr) list" where
  "fMap = [(''f'', 0)]"

section \<open>Properties\<close>

subsection \<open>Get: the two early returns\<close>

text \<open>
  C3. For every file name that resolves to a regular file (not a directory) below the
  base path, with head-node mode off (\<open>head\<close> empty), \<open>Get\<close> returns \<open>nil\<close> at once
  and leaves the node as it was: no message is sent, no transfer is registered, no
  goroutine is started. So a \<open>Get\<close> of a file that an earlier \<open>Get\<close> has put in place does
  nothing.
\<close>

theorem Get_local_file:
  assumes "isRegular (disk st) (Join (base st) file)" and "head st = []"
  shows "Get (Suc n) E st file = Some (None, st)"
  using assms by (simp add: getBody_def)

text \<open>
  The node after the transfer of \<open>f\<close> has run to its end has \<open>f\<close> in place, and a \<open>Get\<close> of
  \<open>f\<close> then changes nothing.
\<close>

theorem Get_local_file_witness:
  "isRegular (disk (snd (getParts ackEnv fNode fInfo)))
     (Join (base (snd (getParts ackEnv fNode fInfo))) ''f'') \<and>
   head (snd (getParts ackEnv fNode fInfo)) = [] \<and>
   Get (Suc 0) quietEnv (snd (getParts ackEnv fNode fInfo)) ''f'' =
     Some (None, snd (getParts ackEnv fNode fInfo))"
proof -
  have h1: "isRegular (disk (snd (getParts ackEnv fNode fInfo)))
              (Join (base (snd (getParts ackEnv fNode fInfo))) ''f'')"
    by code_simp
  have h2: "head (snd (getParts ackEnv fNode fInfo)) = []"
    by code_simp
  from Get_local_file[OF h1 h2, of 0 quietEnv] h1 h2 show ?thesis by simp
qed

text \<open>
  C1, as the code has it. When a \<open>Transfer\<close> is registered for the file name, \<open>Get\<close>
  leaves the node as it was: it broadcasts no INFO request and creates no second
  \<open>Transfer\<close>. It returns \<open>ErrInFlight\<close>, except when the name resolves to a regular local
  file and head-node mode is off: that test comes first, and then \<open>Get\<close> returns \<open>nil\<close>.
\<close>

theorem Get_transfer_registered:
  assumes "transfers st file = Some t"
  shows "(\<not> (isRegular (disk st) (Join (base st) file) \<and> head st = []) \<longrightarrow>
            Get (Suc n) E st file = Some (Some ErrInFlight, st)) \<and>
         (isRegular (disk st) (Join (base st) file) \<and> head st = [] \<longrightarrow>
            Get (Suc n) E st file = Some (None, st))"
  using assms by (auto simp: getBody_def Let_def)

theorem Get_transfer_registered_witness:
  "transfers fNode ''f'' = Some fTransfer \<and>
   \<not> (isRegular (disk fNode) (Join (base fNode) ''f'') \<and> head fNode = []) \<and>
   Get (Suc 0) quietEnv fNode ''f'' = Some (Some ErrInFlight, fNode)"
proof -
  have h1: "transfers fNode ''f'' = Some fTransfer"
    by (simp add: fNode_def)
  have h2: "\<not> (isRegular (disk fNode) (Join (base fNode) ''f'') \<and> head fNode = [])"
    by (simp add: fNode_def isRegular_def Join_def)
  from Get_transfer_registered[OF h1, of 0 quietEnv] h1 h2 show ?thesis by simp
qed

text \<open>
  C1 as stated fails: a transfer of \<open>f\<close> is registered, \<open>f\<close> is a regular file in the base
  directory, head-node mode is off, and \<open>Get\<close> returns \<open>nil\<close>, not \<open>ErrInFlight\<close>.
\<close>

theorem Get_in_flight_counterexample:
  "transfers fNodeLocal ''f'' = Some fTransfer \<and>
   Get (Suc 0) quietEnv fNodeLocal ''f'' = Some (None, fNodeLocal) \<and>
   Get (Suc 0) quietEnv fNodeLocal ''f'' \<noteq> Some (Some ErrInFlight, fNodeLocal)"
  by (simp add: getBody_def fNodeLocal_def fNode_def isRegular_def Join_def)

subsection \<open>The snoop cache\<close>

text \<open>
  C10. A message that is not a RESPONSE, or has no ACK, or has an empty payload, makes
  \<open>MITM\<close> do nothing: no part file is written and no \<open>Transfer\<close> changes, whatever
  transfers there are.
\<close>

theorem MITM_ignores:
  assumes "Type m \<noteq> TYPE_RESPONSE \<or> \<not> ACK m \<or> Data m = []"
  shows "MITM st m = st"
  using assms by (auto simp: MITM_def)

text \<open>An XFER message with payload for a part that the transfer of \<open>f\<close> still needs.\<close>

theorem MITM_ignores_witness:
  "Type ((fPart 1 ''cd'')\<lparr>Type := TYPE_XFER\<rparr>) \<noteq> TYPE_RESPONSE \<and>
   transfers fNode ''f'' = Some fTransfer \<and> \<not> hasPart fTransfer 1 \<and>
   MITM fNode ((fPart 1 ''cd'')\<lparr>Type := TYPE_XFER\<rparr>) = fNode"
proof -
  have h: "Type ((fPart 1 ''cd'')\<lparr>Type := TYPE_XFER\<rparr>) \<noteq> TYPE_RESPONSE \<or>
           \<not> ACK ((fPart 1 ''cd'')\<lparr>Type := TYPE_XFER\<rparr>) \<or>
           Data ((fPart 1 ''cd'')\<lparr>Type := TYPE_XFER\<rparr>) = []"
    by (simp add: fPart_def)
  from MITM_ignores[OF h, of fNode] h show ?thesis
    by (simp add: fNode_def fTransfer_def hasPart_def)
qed




subsection \<open>Collecting INFO responses\<close>

lemma infoCollect_responses:
  "rest = [] \<or> hd rest = None \<Longrightarrow>
   infoCollect n (map Some resps @ rest) acc =
     (if length resps < n then Inl ErrTimeout
      else Inr (acc\<lparr>messages := messages acc @ filter ACK (take n resps)\<rparr>))"
proof (induction n arbitrary: resps acc)
  case 0
  then show ?case by simp
next
  case (Suc n)
  show ?case
  proof (cases resps)
    case Nil
    with Suc.prems show ?thesis by (cases rest) auto
  next
    case (Cons r rs)
    with Suc.IH[OF Suc.prems, of rs] show ?thesis by (auto simp: add_def)
  qed
qed

text \<open>
  C6, as the code has it. Let an INFO request go to \<open>N\<close> recipients, and let \<open>resps\<close> be
  the responses that arrive before a wait ends with the timer (or before nothing more
  happens). If they are fewer than \<open>N\<close>, the collection ends with the error "timeout"
  and yields no aggregate. Otherwise it yields the responses with ACK among the first
  \<open>N\<close>, in their order. (How long a wait lasts is not part of the model.)
\<close>

theorem info_timeout:
  assumes "bcastAt E (ticks st) = BcastOK rs (map Some resps @ rest)"
    and "rest = [] \<or> hd rest = None"
  shows "fst (info E st file) =
           (if length resps < length rs then Inl ErrTimeout
            else Inr \<lparr>fhead = head st, fhash = hash st,
                      messages = filter ACK (take (length rs) resps)\<rparr>)"
  using assms by (simp add: info_def Let_def infoCollect_responses NewFiles_def)

theorem info_timeout_witness:
  "bcastAt lateEnv (ticks fNode) = BcastOK [''a'', ''c''] (map Some [fInfo] @ [None]) \<and>
   ([None] = [] \<or> hd [None] = (None :: Message option)) \<and>
   fst (info lateEnv fNode ''f'') = Inl ErrTimeout"
proof -
  have h1: "bcastAt lateEnv (ticks fNode) = BcastOK [''a'', ''c''] (map Some [fInfo] @ [None])"
    by (simp add: lateEnv_def quietEnv_def)
  have h2: "[None] = [] \<or> hd [None] = (None :: Message option)"
    by simp
  from info_timeout[OF h1 h2, of "''f''"] h1 show ?thesis by simp
qed

text \<open>
  C6 as stated fails: of two recipients one answers with ACK, then the timer fires. The
  collection does not yield the one ACK: it fails with "timeout".
\<close>

theorem info_partial_counterexample:
  "fst (info lateEnv fNode ''f'') = Inl ErrTimeout \<and>
   fst (info lateEnv fNode ''f'') \<noteq> Inr (add (NewFiles (head fNode) (hash fNode)) fInfo)"
  by (simp add: info_def lateEnv_def quietEnv_def fNode_def fInfo_def add_def Let_def)

subsection \<open>The part in flight\<close>

text \<open>
  C7 does not hold of the code. \<open>getPart\<close> sets \<open>Inflight\<close> to the part it asks for and
  nothing sets it back: after the call has returned, with the part written and no
  request pending, \<open>Inflight\<close> is \<open>0\<close>, not \<open>-1\<close>.
\<close>

theorem getPart_leaves_Inflight:
  "fst (getPart ackEnv fNode fInfo 0) = Nil \<and>
   map_option Inflight (transfers (snd (getPart ackEnv fNode fInfo 0)) ''f'') = Some 0 \<and>
   map_option (\<lambda>t. hasPart t 0) (transfers (snd (getPart ackEnv fNode fInfo 0)) ''f'') = Some True"
  by code_simp

subsection \<open>A file without parts\<close>

text \<open>
  C8. For a registered \<open>Transfer\<close> whose response declares \<open>0\<close> parts, \<open>getParts\<close> creates
  an empty file with the declared permission bits at the target path, sends nothing (so
  no XFER request), then removes the scratch directory and unregisters the \<open>Transfer\<close>.
  The empty file is there afterwards unless the target path lies in the scratch
  directory itself.
\<close>

theorem getParts_empty_file:
  assumes "Part msg = 0" and "transfers st (Message.Filename msg) = Some t"
  shows "getParts E st msg =
           (EmptyCreated,
            st\<lparr>disk := RemoveAll ((disk st)(Join (base st) (Message.Filename msg) \<mapsto>
                                      FileNode [] (Perm msg))) (Dir t),
               transfers := (transfers st)(Message.Filename msg := None)\<rparr>) \<and>
         sent (snd (getParts E st msg)) = sent st \<and>
         transfers (snd (getParts E st msg)) (Message.Filename msg) = None \<and>
         (\<forall>q. inDir (Dir t) q \<longrightarrow> disk (snd (getParts E st msg)) q = None) \<and>
         (\<not> inDir (Dir t) (Join (base st) (Message.Filename msg)) \<longrightarrow>
            disk (snd (getParts E st msg)) (Join (base st) (Message.Filename msg)) =
              Some (FileNode [] (Perm msg)))"
  using assms
  by (simp add: getParts_def getPartsBody_def touch_def destroyTempTransfer_def RemoveAll_def)

theorem getParts_empty_file_witness:
  "Part (fInfo\<lparr>Part := 0\<rparr>) = 0 \<and>
   transfers fNode (Message.Filename (fInfo\<lparr>Part := 0\<rparr>)) = Some fTransfer \<and>
   \<not> inDir (Dir fTransfer) (Join (base fNode) (Message.Filename (fInfo\<lparr>Part := 0\<rparr>))) \<and>
   inDir (Dir fTransfer) ''/srv/transfer_7'' \<and>
   fst (getParts quietEnv fNode (fInfo\<lparr>Part := 0\<rparr>)) = EmptyCreated \<and>
   sent (snd (getParts quietEnv fNode (fInfo\<lparr>Part := 0\<rparr>))) = sent fNode \<and>
   transfers (snd (getParts quietEnv fNode (fInfo\<lparr>Part := 0\<rparr>))) ''f'' = None \<and>
   disk (snd (getParts quietEnv fNode (fInfo\<lparr>Part := 0\<rparr>))) ''/srv/transfer_7'' = None \<and>
   disk (snd (getParts quietEnv fNode (fInfo\<lparr>Part := 0\<rparr>))) ''/srv/f'' = Some (FileNode [] 420)"
proof -
  have h1: "Part (fInfo\<lparr>Part := 0\<rparr>) = 0"
    by simp
  have h2: "transfers fNode (Message.Filename (fInfo\<lparr>Part := 0\<rparr>)) = Some fTransfer"
    by (simp add: fNode_def fInfo_def)
  have h3: "\<not> inDir (Dir fTransfer) (Join (base fNode) (Message.Filename (fInfo\<lparr>Part := 0\<rparr>)))"
    by (simp add: inDir_def fTransfer_def fNode_def fInfo_def Join_def)
  have h4: "inDir (Dir fTransfer) ''/srv/transfer_7''"
    by (simp add: inDir_def fTransfer_def)
  have nm: "Join (base fNode) ''f'' = ''/srv/f''" "Message.Filename fInfo = ''f''"
           "Perm fInfo = 420"
    by (simp_all add: fNode_def fInfo_def Join_def)
  from getParts_empty_file[OF h1 h2, of quietEnv] h3 h4 h1 h2 show ?thesis
    by (auto simp: nm)
qed

subsection \<open>The fetch loop: what it leaves alone and what it sends\<close>

lemma scratchPathI: "transfers st g = Some t \<Longrightarrow> inDir (Dir t) q \<Longrightarrow> scratchPath st q"
  unfolding scratchPath_def by blast

lemma scratchPath_cong:
  assumes "\<forall>g. map_option Dir (transfers st' g) = map_option Dir (transfers st g)"
  shows "scratchPath st' q = scratchPath st q"
proof
  assume "scratchPath st' q"
  then obtain g t where gt: "transfers st' g = Some t" "inDir (Dir t) q"
    unfolding scratchPath_def by blast
  with assms have "map_option Dir (transfers st g) = Some (Dir t)" by (metis option.simps(9))
  then obtain t0 where "transfers st g = Some t0" "Dir t0 = Dir t" by auto
  with gt show "scratchPath st q" by (metis scratchPathI)
next
  assume "scratchPath st q"
  then obtain g t where gt: "transfers st g = Some t" "inDir (Dir t) q"
    unfolding scratchPath_def by blast
  with assms have "map_option Dir (transfers st' g) = Some (Dir t)" by (metis option.simps(9))
  then obtain t0 where "transfers st' g = Some t0" "Dir t0 = Dir t" by auto
  with gt show "scratchPath st' q" by (metis scratchPathI)
qed

lemma keepsOutside_refl: "keepsOutside st st"
  by (simp add: keepsOutside_def)

lemma keepsOutside_trans:
  assumes "keepsOutside a b" and "keepsOutside b c"
  shows "keepsOutside a c"
proof -
  from assms(1) have d: "\<forall>g. map_option Dir (transfers b g) = map_option Dir (transfers a g)"
    by (simp add: keepsOutside_def)
  have "scratchPath b q = scratchPath a q" for q
    by (rule scratchPath_cong[OF d])
  with assms show ?thesis by (simp add: keepsOutside_def)
qed

lemma inDir_partFile: "inDir d (partFile d fn p)"
  by (simp add: inDir_def partFile_def)

lemma WriteFile_other:
  "WriteFile d p dat perm = Inr d' \<Longrightarrow> q \<noteq> p \<Longrightarrow> d' q = d q"
  by (auto simp: WriteFile_def split: option.splits node.splits if_splits)

lemma MITM_keeps: "keepsOutside st (MITM st m)"
proof -
  have "keepsOutside st
          (st\<lparr>disk := d1, transfers := (transfers st)(Message.Filename m \<mapsto> f\<lparr>Parts := P\<rparr>)\<rparr>)"
    if f: "transfers st (Message.Filename m) = Some f"
      and w: "WriteFile (disk st) (partFile (Dir f) (Filename f) (Part m)) (Data m) 436 = Inr d1"
    for f d1 P
  proof -
    have "scratchPath st (partFile (Dir f) (Filename f) (Part m))"
      by (rule scratchPathI[OF f inDir_partFile])
    then have "\<forall>q. \<not> scratchPath st q \<longrightarrow> d1 q = disk st q"
      using WriteFile_other[OF w] by metis
    then show ?thesis using f by (simp add: keepsOutside_def)
  qed
  then show ?thesis
    by (auto simp: MITM_def keepsOutside_refl split: option.splits sum.splits)
qed


lemma foldl_MITM_keeps: "keepsOutside st (foldl MITM st ms)"
proof (induction ms arbitrary: st)
  case Nil
  show ?case by (simp add: keepsOutside_refl)
next
  case (Cons m ms)
  from keepsOutside_trans[OF MITM_keeps Cons.IH] show ?case by simp
qed




lemma xfer_keeps: "keepsOutside st (snd (xfer E st msg p))"
proof -
  have t: "keepsOutside st (tick st)" by (simp add: keepsOutside_def tick_def scratchPath_def)
  have s: "keepsOutside st ((tick st)\<lparr>sent := tr\<rparr>)" for tr
    by (simp add: keepsOutside_def tick_def scratchPath_def)
  have "keepsOutside st (foldl MITM ((tick st)\<lparr>sent := tr\<rparr>) ms)" for tr ms
    by (rule keepsOutside_trans[OF s foldl_MITM_keeps])
  with t show ?thesis
    by (auto simp: xfer_def Let_def split: xreply.splits)
qed


lemma getPart_keeps: "keepsOutside st (snd (getPart E st msg p))"
proof (cases "transfers st (Message.Filename msg)")
  case None
  then show ?thesis by (simp add: getPart_def keepsOutside_refl)
next
  case (Some t0)
  define st1 where "st1 = st\<lparr>transfers := (transfers st)(Message.Filename msg \<mapsto> t0\<lparr>Inflight := p\<rparr>)\<rparr>"
  have k1: "keepsOutside st st1"
    using Some by (auto simp: keepsOutside_def st1_def scratchPath_def)
  have k2: "keepsOutside st (snd (xfer E st1 msg p))"
    by (rule keepsOutside_trans[OF k1 xfer_keeps])
  have k3: "keepsOutside st (st2\<lparr>disk := d1, transfers := (transfers st2)(Message.Filename msg \<mapsto> t\<lparr>Parts := P\<rparr>)\<rparr>)"
    if x: "xfer E st1 msg p = (r, st2)" and t: "transfers st2 (Message.Filename msg) = Some t"
      and w: "WriteFile (disk st2) (partFile (Dir t) (Message.Filename msg) p) dat 436 = Inr d1"
    for r st2 t d1 dat P
  proof -
    from k2 x have k: "keepsOutside st st2" by simp
    have "scratchPath st2 (partFile (Dir t) (Message.Filename msg) p)"
      by (rule scratchPathI[OF t inDir_partFile])
    then have "\<forall>q. \<not> scratchPath st2 q \<longrightarrow> d1 q = disk st2 q"
      using WriteFile_other[OF w] by metis
    then have "keepsOutside st2 (st2\<lparr>disk := d1, transfers := (transfers st2)(Message.Filename msg \<mapsto> t\<lparr>Parts := P\<rparr>)\<rparr>)"
      using t by (simp add: keepsOutside_def)
    from keepsOutside_trans[OF k this] show ?thesis .
  qed
  show ?thesis
    using Some k2 k3
    by (auto simp: getPart_def Let_def st1_def[symmetric] keepsOutside_refl split: prod.splits sum.splits option.splits)
qed


lemma attempts_keeps: "keepsOutside st (snd (attempts E k st msg p))"
proof (induction k arbitrary: st)
  case 0
  show ?case by (simp add: keepsOutside_refl)
next
  case (Suc k)
  obtain r st1 where g: "getPart E st msg p = (r, st1)" by (cases "getPart E st msg p")
  with getPart_keeps[of st E msg p] have k1: "keepsOutside st st1" by simp
  from keepsOutside_trans[OF k1 Suc.IH[of st1]] k1 g show ?case
    by (cases r) auto
qed





lemma fetchParts_keeps: "keepsOutside st (snd (fetchParts E st msg ps))"
proof (induction ps arbitrary: st)
  case Nil
  show ?case by (simp add: keepsOutside_refl)
next
  case (Cons p ps)
  obtain r st1 where a: "attempts E MAX_ATTEMPTS st msg p = (r, st1)"
    by (cases "attempts E MAX_ATTEMPTS st msg p")
  with attempts_keeps[of st E MAX_ATTEMPTS msg p] have k1: "keepsOutside st st1" by simp
  from keepsOutside_trans[OF k1 Cons.IH[of st1]] k1 a show ?case
    by (auto split: option.splits bool.splits)
qed




lemma fetchAll_cases:
  obtains (panic) "fetchAll E st msg = (Some Panicked, st)"
  | (run) k where "k = 0 \<or> k < length [0 .. Part msg - 1]"
      and "fetchAll E st msg =
             (case transfers st (Message.Filename msg) of
                None \<Rightarrow> (Some Panicked, st\<lparr>ticks := ticks st + k\<rparr>)
              | Some t \<Rightarrow>
                  fetchParts E
                    (st\<lparr>ticks := ticks st + k,
                        transfers := (transfers st)(Message.Filename msg \<mapsto> t\<lparr>Queued := False\<rparr>)\<rparr>)
                    msg (shuffle (randAt E) (ticks st) k [0 .. Part msg - 1]))"
proof (cases "0 < wrap64 (Part msg - 1) \<and>
              (wrap64 (wrap64 (Part msg - 1) + 1) \<le> 0 \<or>
               length [0 .. Part msg - 1] \<le> nat (wrap64 (Part msg - 1)))")
  case True
  then have "fetchAll E st msg = (Some Panicked, st)"
    by (simp add: fetchAll_def Let_def)
  then show ?thesis by (rule panic)
next
  case False
  then have k: "nat (wrap64 (Part msg - 1)) = 0 \<or>
                nat (wrap64 (Part msg - 1)) < length [0 .. Part msg - 1]"
    by auto
  from False have "fetchAll E st msg =
             (case transfers st (Message.Filename msg) of
                None \<Rightarrow> (Some Panicked, st\<lparr>ticks := ticks st + nat (wrap64 (Part msg - 1))\<rparr>)
              | Some t \<Rightarrow>
                  fetchParts E
                    (st\<lparr>ticks := ticks st + nat (wrap64 (Part msg - 1)),
                        transfers := (transfers st)(Message.Filename msg \<mapsto> t\<lparr>Queued := False\<rparr>)\<rparr>)
                    msg (shuffle (randAt E) (ticks st) (nat (wrap64 (Part msg - 1))) [0 .. Part msg - 1]))"
    unfolding fetchAll_def Let_def if_not_P[OF False] by (simp split: option.splits)
  with k show ?thesis by (rule run)
qed

lemma fetchAll_keeps: "keepsOutside st (snd (fetchAll E st msg))"
proof (cases rule: fetchAll_cases[of E st msg])
  case panic
  then show ?thesis by (simp add: keepsOutside_refl)
next
  case (run k)
  show ?thesis
  proof (cases "transfers st (Message.Filename msg)")
    case None
    with run(2) show ?thesis
      by (simp add: keepsOutside_def scratchPath_def)
  next
    case (Some t)
    define st2 where "st2 = st\<lparr>ticks := ticks st + k,
       transfers := (transfers st)(Message.Filename msg \<mapsto> t\<lparr>Queued := False\<rparr>)\<rparr>"
    have k1: "keepsOutside st st2"
      using Some by (auto simp: keepsOutside_def st2_def scratchPath_def)
    have "snd (fetchAll E st msg) = snd (fetchParts E st2 msg
            (shuffle (randAt E) (ticks st) k [0 .. Part msg - 1]))"
      using Some run(2) by (simp add: st2_def)
    with keepsOutside_trans[OF k1 fetchParts_keeps] show ?thesis by simp
  qed
qed





lemma getParts_split:
  "fst (getParts E st msg) = fst (getPartsBody E st msg)"
  "snd (getParts E st msg) = destroyTempTransfer (snd (getPartsBody E st msg)) (Message.Filename msg)"
  by (simp_all add: getParts_def split_beta)





subsection \<open>Putting the file together\<close>

lemma catParts_concat:
  assumes "\<forall>i \<in> set is. \<exists>md. d (partFile dir fn i) = Some (FileNode (dat i) md)"
    and "d nm = Some (FileNode c0 m0)"
    and "\<forall>i \<in> set is. partFile dir fn i \<noteq> nm"
  shows "catParts d (Some nm) dir fn is = (True, d(nm \<mapsto> FileNode (c0 @ concat (map dat is)) m0))"
  using assms
proof (induction "is" arbitrary: d c0)
  case Nil
  then show ?case by (simp add: fun_upd_idem)
next
  case (Cons i "is")
  from Cons.prems(1) obtain md where r: "d (partFile dir fn i) = Some (FileNode (dat i) md)"
    by auto
  let ?d1 = "d(nm \<mapsto> FileNode (c0 @ dat i) m0)"
  have step: "catParts d (Some nm) dir fn (i # is) = catParts ?d1 (Some nm) dir fn is"
    using r Cons.prems(2) by (simp add: openRead_def appendTo_def)
  have p1: "\<forall>j \<in> set is. \<exists>md. ?d1 (partFile dir fn j) = Some (FileNode (dat j) md)"
    using Cons.prems(1) Cons.prems(3) by simp
  have p2: "?d1 nm = Some (FileNode (c0 @ dat i) m0)" by simp
  have p3: "\<forall>j \<in> set is. partFile dir fn j \<noteq> nm" using Cons.prems(3) by simp
  have ih: "catParts ?d1 (Some nm) dir fn is =
              (True, ?d1(nm \<mapsto> FileNode ((c0 @ dat i) @ concat (map dat is)) m0))"
    by (rule Cons.IH[OF p1 p2 p3])
  have upd: "?d1(nm \<mapsto> FileNode ((c0 @ dat i) @ concat (map dat is)) m0) =
             d(nm \<mapsto> FileNode (c0 @ concat (map dat (i # is))) m0)"
    by simp
  show ?case unfolding step ih upd ..
qed

lemma MkdirAll_keeps:
  "MkdirAll d p = Inr d' \<Longrightarrow> d q = Some x \<Longrightarrow> d' q = Some x"
proof (induction d p arbitrary: d' rule: MkdirAll.induct)
  case (1 d p)
  show ?case
  proof (cases "d p")
    case None
    show ?thesis
    proof (cases "length (dirname p) < length p")
      case True
      with None "1.prems"(1) obtain d1 where
        m: "MkdirAll d (dirname p) = Inr d1" "d' = d1(p \<mapsto> DirNode)"
        by (subst (asm) MkdirAll.simps) (auto split: sum.splits)
      from "1.IH"[OF None True m(1) "1.prems"(2)] have "d1 q = Some x" .
      moreover have "q \<noteq> p" using None "1.prems"(2) by auto
      ultimately show ?thesis using m(2) by simp
    next
      case False
      with None "1.prems"(1) have "d' = d(p \<mapsto> DirNode)"
        by (subst (asm) MkdirAll.simps) auto
      moreover have "q \<noteq> p" using None "1.prems"(2) by auto
      ultimately show ?thesis using "1.prems"(2) by simp
    qed
  next
    case (Some n)
    with "1.prems" show ?thesis
      by (subst (asm) MkdirAll.simps) (auto split: node.splits)
  qed
qed

lemma MkdirAll_isDir: "MkdirAll d p = Inr d' \<Longrightarrow> d' p = Some DirNode"
  by (subst (asm) MkdirAll.simps) (auto split: option.splits node.splits sum.splits if_splits)

lemma assemble_transfers: "transfers (snd (assemble E st msg)) = transfers st"
  by (auto simp: assemble_def Let_def tick_def split: option.splits sum.splits prod.splits bool.splits)

lemma destroyTempTransfer_gone: "transfers (destroyTempTransfer st fn) fn = None"
  by (simp add: destroyTempTransfer_def split: option.splits)

lemma TempFile_inDir: "TempFile d dir pre r = Inr (nm, d1) \<Longrightarrow> inDir dir nm"
  by (auto simp: TempFile_def Let_def inDir_def split: if_splits)

text \<open>
  C2, as the code has it. Let the fetch loop of \<open>getParts\<close> have ended with all parts
  dealt with, let all \<open>N\<close> part files \<open>0, ..., N - 1\<close> be in the scratch directory of the
  \<open>Transfer\<close>, part \<open>i\<close> holding the bytes \<open>dat i\<close>, and let the assembly file have been
  created there. Then the assembly file is filled with the concatenation of
  \<open>dat 0, ..., dat (N - 1)\<close> in this order, and in the end the \<open>Transfer\<close> is unregistered
  (with its scratch directory removed). What is placed depends on the target directory:
  \<^item> if it cannot be made, \<open>getParts\<close> gives up: every path outside the scratch
    directories is as it was before, so no file is placed;
  \<^item> if it exists or can be made, and the target path is not a directory, the assembly
    file is renamed to the target path below the base directory and gets the
    permission bits of the declared mode (what \<open>os.Chmod\<close> takes of it), so the target
    file holds the bytes of the parts in ascending order (unless the target path lies
    in the scratch directory itself, which is removed).
  Nothing is said here of a run in which the assembly file cannot be created, or in
  which the target path is a directory.
\<close>

theorem getParts_assembles:
  fixes E st msg dat
  defines "fn \<equiv> Message.Filename msg"
    and "st3 \<equiv> snd (fetchAll E st msg)"
    and "target \<equiv> Join (base st) (Message.Filename msg)"
    and "whole \<equiv> concat (map dat [0 .. Part msg - 1])"
  assumes nz: "Part msg \<noteq> 0"
    and fetched: "fst (fetchAll E st msg) = None"
    and reg: "transfers st3 fn = Some t"
    and parts: "\<forall>i. 0 \<le> i \<and> i < Part msg \<longrightarrow>
                 (\<exists>md. disk st3 (partFile (Dir t) fn i) = Some (FileNode (dat i) md))"
    and tmp: "TempFile (disk st3) (Dir t) ''cat_'' (randAt E (ticks st3)) = Inr (nm, d1)"
  shows "catParts d1 (Some nm) (Dir t) fn [0 .. Part msg - 1] =
           (True, d1(nm \<mapsto> FileNode whole 384)) \<and>
         transfers (snd (getParts E st msg)) fn = None \<and>
         (case MkdirAll (d1(nm \<mapsto> FileNode whole 384)) (dirname target) of
            Inl e \<Rightarrow>
              fst (getParts E st msg) = MkdirFailed \<and>
              (\<forall>q. \<not> scratchPath st q \<longrightarrow> disk (snd (getParts E st msg)) q = disk st q)
          | Inr d3 \<Rightarrow>
              d3 target \<noteq> Some DirNode \<longrightarrow>
                getParts E st msg =
                  (Finished,
                   destroyTempTransfer
                     ((tick st3)\<lparr>disk := (d3(nm := None))(target \<mapsto>
                                            FileNode whole (chmodBits (Perm msg)))\<rparr>) fn) \<and>
                (\<not> inDir (Dir t) target \<longrightarrow>
                   disk (snd (getParts E st msg)) target =
                     Some (FileNode whole (chmodBits (Perm msg)))))"
proof -
  have ko: "keepsOutside st st3"
    using fetchAll_keeps[of st E msg] by (simp add: st3_def)
  then have b: "base st3 = base st"
    by (simp add: keepsOutside_def)
  from tmp have d1: "d1 = (disk st3)(nm \<mapsto> FileNode [] 384)" and fresh: "disk st3 nm = None"
    by (auto simp: TempFile_def Let_def split: if_splits)
  have p1: "\<forall>i \<in> set [0 .. Part msg - 1]. \<exists>md. d1 (partFile (Dir t) fn i) = Some (FileNode (dat i) md)"
  proof
    fix i assume "i \<in> set [0 .. Part msg - 1]"
    then have "0 \<le> i \<and> i < Part msg" by simp
    with parts obtain md where "disk st3 (partFile (Dir t) fn i) = Some (FileNode (dat i) md)" by blast
    with fresh show "\<exists>md. d1 (partFile (Dir t) fn i) = Some (FileNode (dat i) md)"
      by (auto simp: d1)
  qed
  have p3: "\<forall>i \<in> set [0 .. Part msg - 1]. partFile (Dir t) fn i \<noteq> nm"
  proof
    fix i assume "i \<in> set [0 .. Part msg - 1]"
    then have "0 \<le> i \<and> i < Part msg" by simp
    with parts obtain md where "disk st3 (partFile (Dir t) fn i) = Some (FileNode (dat i) md)" by blast
    with fresh show "partFile (Dir t) fn i \<noteq> nm" by auto
  qed
  have at: "d1 nm = Some (FileNode [] 384)"
    by (simp add: d1)
  have cat: "catParts d1 (Some nm) (Dir t) fn [0 .. Part msg - 1] = (True, d1(nm \<mapsto> FileNode whole 384))"
    unfolding catParts_concat[OF p1 at p3] whole_def by simp
  obtain out s where f: "fetchAll E st msg = (out, s)" by (cases "fetchAll E st msg")
  with fetched have os: "out = None" "s = st3" by (simp_all add: st3_def)
  have body: "getPartsBody E st msg = assemble E st3 msg"
    using f os nz by (simp add: getPartsBody_def)
  have gone: "transfers (snd (getParts E st msg)) fn = None"
    by (simp add: getParts_split fn_def destroyTempTransfer_gone)
  have t3: "transfers (tick st3) fn = Some t"
    using reg by (simp add: tick_def)
  have third: "case MkdirAll (d1(nm \<mapsto> FileNode whole 384)) (dirname target) of
            Inl e \<Rightarrow>
              fst (getParts E st msg) = MkdirFailed \<and>
              (\<forall>q. \<not> scratchPath st q \<longrightarrow> disk (snd (getParts E st msg)) q = disk st q)
          | Inr d3 \<Rightarrow>
              d3 target \<noteq> Some DirNode \<longrightarrow>
                getParts E st msg =
                  (Finished,
                   destroyTempTransfer
                     ((tick st3)\<lparr>disk := (d3(nm := None))(target \<mapsto>
                                            FileNode whole (chmodBits (Perm msg)))\<rparr>) fn) \<and>
                (\<not> inDir (Dir t) target \<longrightarrow>
                   disk (snd (getParts E st msg)) target =
                     Some (FileNode whole (chmodBits (Perm msg))))"
  proof (cases "MkdirAll (d1(nm \<mapsto> FileNode whole 384)) (dirname target)")
    case (Inl e)
    have asm: "assemble E st3 msg = (MkdirFailed, (tick st3)\<lparr>disk := d1(nm \<mapsto> FileNode whole 384)\<rparr>)"
      using reg tmp cat Inl b
      by (simp add: assemble_def Let_def fn_def target_def)
    have g: "getParts E st msg =
               (MkdirFailed,
                destroyTempTransfer ((tick st3)\<lparr>disk := d1(nm \<mapsto> FileNode whole 384)\<rparr>) fn)"
      using body asm by (simp add: getParts_def fn_def)
    have frame: "disk (snd (getParts E st msg)) q = disk st q" if q: "\<not> scratchPath st q" for q
    proof -
      from ko have "scratchPath st3 q = scratchPath st q"
        by (intro scratchPath_cong) (simp add: keepsOutside_def)
      with q have n3: "\<not> scratchPath st3 q" by simp
      with reg have nd: "\<not> inDir (Dir t) q" using scratchPathI by blast
      with TempFile_inDir[OF tmp] have "q \<noteq> nm" by auto
      with nd t3 have "disk (snd (getParts E st msg)) q = disk st3 q"
        by (simp add: g destroyTempTransfer_def RemoveAll_def d1)
      with ko q show ?thesis by (simp add: keepsOutside_def)
    qed
    from g frame Inl show ?thesis by simp
  next
    case (Inr d3)
    have "d3 target \<noteq> Some DirNode \<longrightarrow>
          getParts E st msg =
            (Finished,
             destroyTempTransfer
               ((tick st3)\<lparr>disk := (d3(nm := None))(target \<mapsto>
                                      FileNode whole (chmodBits (Perm msg)))\<rparr>) fn) \<and>
          (\<not> inDir (Dir t) target \<longrightarrow>
             disk (snd (getParts E st msg)) target =
               Some (FileNode whole (chmodBits (Perm msg))))"
    proof (rule impI)
      assume nodir: "d3 target \<noteq> Some DirNode"
      have k: "d3 nm = Some (FileNode whole 384)"
        by (rule MkdirAll_keeps[OF Inr]) simp
      have dd: "d3 (dirname target) = Some DirNode"
        by (rule MkdirAll_isDir[OF Inr])
      have rn: "Rename d3 nm target = Inr ((d3(nm := None))(target \<mapsto> FileNode whole 384))"
        using k dd nodir by (simp add: Rename_def)
      have ch: "Chmod ((d3(nm := None))(target \<mapsto> FileNode whole 384)) target (Perm msg) =
                  Inr ((d3(nm := None))(target \<mapsto> FileNode whole (chmodBits (Perm msg))))"
        by (simp add: Chmod_def)
      have asm: "assemble E st3 msg =
                   (Finished, (tick st3)\<lparr>disk := (d3(nm := None))(target \<mapsto>
                                                    FileNode whole (chmodBits (Perm msg)))\<rparr>)"
        using reg tmp cat Inr rn ch b
        by (simp add: assemble_def Let_def fn_def target_def)
      have g: "getParts E st msg =
               (Finished,
                destroyTempTransfer
                  ((tick st3)\<lparr>disk := (d3(nm := None))(target \<mapsto>
                                         FileNode whole (chmodBits (Perm msg)))\<rparr>) fn)"
        using body asm by (simp add: getParts_def fn_def)
      have g2: "disk (snd (getParts E st msg)) target = Some (FileNode whole (chmodBits (Perm msg)))"
        if "\<not> inDir (Dir t) target"
        using t3 that by (simp add: g destroyTempTransfer_def RemoveAll_def)
      from g g2 show "getParts E st msg =
            (Finished,
             destroyTempTransfer
               ((tick st3)\<lparr>disk := (d3(nm := None))(target \<mapsto>
                                      FileNode whole (chmodBits (Perm msg)))\<rparr>) fn) \<and>
          (\<not> inDir (Dir t) target \<longrightarrow>
             disk (snd (getParts E st msg)) target =
               Some (FileNode whole (chmodBits (Perm msg))))"
        by blast
    qed
    then show ?thesis unfolding Inr sum.case .
  qed
  from cat gone third show ?thesis by blast
qed

text \<open>
  The transfer of \<open>f\<close> in two parts: the peer sends \<open>cd\<close> for part \<open>1\<close> and \<open>ab\<close> for part
  \<open>0\<close> (part \<open>1\<close> is asked for first), and \<open>abcd\<close> ends up at the target path.
\<close>

theorem getParts_assembles_witness:
  "Part fInfo \<noteq> 0 \<and>
   fst (fetchAll ackEnv fNode fInfo) = None \<and>
   disk (snd (fetchAll ackEnv fNode fInfo)) ''/srv/transfer_7/f.part_0'' = Some (FileNode ''ab'' 436) \<and>
   disk (snd (fetchAll ackEnv fNode fInfo)) ''/srv/transfer_7/f.part_1'' = Some (FileNode ''cd'' 436) \<and>
   fst (getParts ackEnv fNode fInfo) = Finished \<and>
   transfers (snd (getParts ackEnv fNode fInfo)) ''f'' = None \<and>
   disk (snd (getParts ackEnv fNode fInfo)) ''/srv/f'' = Some (FileNode ''abcd'' 420)"
proof -
  define st3 where "st3 = snd (fetchAll ackEnv fNode fInfo)"
  define t where "t = the (transfers st3 ''f'')"
  define dat where "dat = (\<lambda>i :: int. if i = 0 then ''ab'' else ''cd'')"
  define tf where "tf = TempFile (disk st3) (Dir t) ''cat_'' (randAt ackEnv (ticks st3))"
  define mk where "mk = MkdirAll ((snd (projr tf))(fst (projr tf) \<mapsto>
                           FileNode (concat (map dat [0 .. Part fInfo - 1])) 384))
                         (dirname (Join (base fNode) ''f''))"
  have fn: "Message.Filename fInfo = ''f''" "Part fInfo = 2" "Perm fInfo = 420"
    by (simp_all add: fInfo_def)
  have tg: "Join (base fNode) ''f'' = ''/srv/f''"
    by (simp add: fNode_def Join_def)
  have wh: "concat (map dat [0 .. Part fInfo - 1]) = ''abcd''"
    unfolding dat_def by code_simp
  have md: "chmodBits (Perm fInfo) = 420"
    by code_simp
  have h1: "Part fInfo \<noteq> 0"
    by (simp add: fn)
  have h2: "fst (fetchAll ackEnv fNode fInfo) = None"
    by code_simp
  have "transfers st3 ''f'' \<noteq> None"
    unfolding st3_def by code_simp
  then have h3: "transfers st3 ''f'' = Some t"
    by (simp add: t_def)
  have dir: "Dir t = ''/srv/transfer_7''"
    unfolding t_def st3_def by code_simp
  have p0: "disk st3 ''/srv/transfer_7/f.part_0'' = Some (FileNode ''ab'' 436)"
    unfolding st3_def by code_simp
  have p1: "disk st3 ''/srv/transfer_7/f.part_1'' = Some (FileNode ''cd'' 436)"
    unfolding st3_def by code_simp
  have n0: "partFile ''/srv/transfer_7'' ''f'' 0 = ''/srv/transfer_7/f.part_0''"
    by code_simp
  have n1: "partFile ''/srv/transfer_7'' ''f'' 1 = ''/srv/transfer_7/f.part_1''"
    by code_simp
  have h4: "\<forall>i. 0 \<le> i \<and> i < Part fInfo \<longrightarrow>
              (\<exists>md. disk st3 (partFile (Dir t) ''f'' i) = Some (FileNode (dat i) md))"
  proof (intro allI impI)
    fix i :: int assume "0 \<le> i \<and> i < Part fInfo"
    then have "i = 0 \<or> i = 1" by (auto simp: fn)
    then show "\<exists>md. disk st3 (partFile (Dir t) ''f'' i) = Some (FileNode (dat i) md)"
      using p0 p1 by (auto simp: dir n0 n1 dat_def)
  qed
  have "\<not> isl tf"
    unfolding tf_def t_def st3_def by code_simp
  then have h5: "TempFile (disk st3) (Dir t) ''cat_'' (randAt ackEnv (ticks st3)) =
                   Inr (fst (projr tf), snd (projr tf))"
    by (simp add: tf_def)
  have "\<not> isl mk"
    unfolding mk_def tf_def t_def st3_def dat_def by code_simp
  then have h6: "MkdirAll ((snd (projr tf))(fst (projr tf) \<mapsto>
                    FileNode (concat (map dat [0 .. Part fInfo - 1])) 384))
                  (dirname (Join (base fNode) ''f'')) = Inr (projr mk)"
    by (simp add: mk_def)
  have h7: "projr mk (Join (base fNode) ''f'') \<noteq> Some DirNode"
    unfolding mk_def tf_def t_def st3_def dat_def by code_simp
  have h8: "\<not> inDir (Dir t) (Join (base fNode) ''f'')"
    by (simp add: dir tg inDir_def)
  note r = getParts_assembles[of fInfo ackEnv fNode t dat "fst (projr tf)" "snd (projr tf)",
      folded st3_def, unfolded fn(1), OF h1 h2 h3 h4 h5]
  note r3 = r[THEN conjunct2, THEN conjunct2, unfolded h6 sum.case, rule_format, OF h7]
  have r1: "fst (getParts ackEnv fNode fInfo) = Finished"
    using r3 by (metis fst_conv)
  have r2: "transfers (snd (getParts ackEnv fNode fInfo)) ''f'' = None"
    using r by blast
  have r4: "disk (snd (getParts ackEnv fNode fInfo)) ''/srv/f'' = Some (FileNode ''abcd'' 420)"
    using r3[THEN conjunct2, rule_format, OF h8] unfolding wh tg md .
  from h1 h2 p0 p1 r1 r2 r4 show ?thesis
    by (simp add: st3_def)
qed

text \<open>
  C2 as stated fails. The node fetches \<open>d/f\<close>; both part files arrive and are in the
  scratch directory after the fetch loop; but \<open>d\<close> is a regular file, the target
  directory cannot be made, and \<open>getParts\<close> returns without an assembly file renamed to
  the target path: there is no file at the target path.
\<close>

theorem getParts_mkdir_counterexample:
  "fst (fetchAll ackEnv dNode dInfo) = None \<and>
   disk (snd (fetchAll ackEnv dNode dInfo)) ''/srv/transfer_7/f.part_0'' = Some (FileNode ''ab'' 436) \<and>
   disk (snd (fetchAll ackEnv dNode dInfo)) ''/srv/transfer_7/f.part_1'' = Some (FileNode ''cd'' 436) \<and>
   Join (base dNode) (Message.Filename dInfo) = ''/srv/d/f'' \<and>
   fst (getParts ackEnv dNode dInfo) = MkdirFailed \<and>
   disk (snd (getParts ackEnv dNode dInfo)) ''/srv/d/f'' = None"
  by code_simp

subsection \<open>Status\<close>

lemma deref_cong:
  "structs h' a = structs h a \<Longrightarrow>
   (\<And>t. structs h a = Some t \<Longrightarrow> maps h' (Parts t) = maps h (Parts t)) \<Longrightarrow>
   deref h' a = deref h a"
  by (auto simp: deref_def split: option.splits)

lemma StatusLoop_fresh:
  assumes "\<forall>a \<in> set as. a < nextAddr h \<and> (\<exists>t. structs h a = Some t \<and> Parts t < nextAddr h)"
  shows "\<exists>new h'. StatusLoop h res as = Some (res @ new, h') \<and>
           length new = length as \<and>
           (\<forall>a < nextAddr h. structs h' a = structs h a \<and> maps h' a = maps h a) \<and>
           (\<forall>r \<in> set new. nextAddr h \<le> r \<and> (\<exists>t2. structs h' r = Some t2 \<and> nextAddr h \<le> Parts t2)) \<and>
           (\<forall>i < length as. deref h' (new ! i) = deref h (as ! i))"
  using assms
proof (induction as arbitrary: h res)
  case Nil
  then show ?case by simp
next
  case (Cons a as)
  from Cons.prems obtain t where a: "a < nextAddr h" "structs h a = Some t" "Parts t < nextAddr h"
    by auto
  define h4 where "h4 = h\<lparr>nextAddr := Suc (Suc (nextAddr h)),
                          structs := (structs h)(nextAddr h \<mapsto> t\<lparr>Parts := Suc (nextAddr h)\<rparr>),
                          maps := (maps h)(Suc (nextAddr h) \<mapsto> (case maps h (Parts t) of Some m \<Rightarrow> m | None \<Rightarrow> Map.empty))\<rparr>"
  have step: "StatusLoop h res (a # as) = StatusLoop h4 (res @ [nextAddr h]) as"
    using a by (simp add: h4_def Let_def)
  have low: "\<forall>b < nextAddr h. structs h4 b = structs h b \<and> maps h4 b = maps h b"
    by (simp add: h4_def)
  have pre: "\<forall>b \<in> set as. b < nextAddr h4 \<and> (\<exists>t. structs h4 b = Some t \<and> Parts t < nextAddr h4)"
  proof
    fix b assume "b \<in> set as"
    with Cons.prems obtain tb where "b < nextAddr h" "structs h b = Some tb" "Parts tb < nextAddr h"
      by auto
    then show "b < nextAddr h4 \<and> (\<exists>t. structs h4 b = Some t \<and> Parts t < nextAddr h4)"
      by (auto simp: h4_def)
  qed
  from Cons.IH[OF pre, of "res @ [nextAddr h]"] obtain new h' where
    ih: "StatusLoop h4 (res @ [nextAddr h]) as = Some ((res @ [nextAddr h]) @ new, h')"
        "length new = length as"
        "\<forall>b < nextAddr h4. structs h' b = structs h4 b \<and> maps h' b = maps h4 b"
        "\<forall>r \<in> set new. nextAddr h4 \<le> r \<and> (\<exists>t2. structs h' r = Some t2 \<and> nextAddr h4 \<le> Parts t2)"
        "\<forall>i < length as. deref h' (new ! i) = deref h4 (as ! i)"
    by blast
  have n4: "nextAddr h4 = Suc (Suc (nextAddr h))" by (simp add: h4_def)
  have keep: "\<forall>b < nextAddr h. structs h' b = structs h b \<and> maps h' b = maps h b"
    using ih(3) low n4 by auto
  have s2: "structs h' (nextAddr h) = Some (t\<lparr>Parts := Suc (nextAddr h)\<rparr>)"
    using ih(3) n4 by (simp add: h4_def)
  have m2: "maps h' (Suc (nextAddr h)) = Some (case maps h (Parts t) of Some m \<Rightarrow> m | None \<Rightarrow> Map.empty)"
    using ih(3) n4 by (simp add: h4_def)
  have d0: "deref h' (nextAddr h) = deref h a"
    using s2 m2 a by (simp add: deref_def split: option.splits)
  have dold: "deref h4 b = deref h b" if "b \<in> set as" for b
  proof -
    from that Cons.prems obtain tb where b: "b < nextAddr h" "structs h b = Some tb" "Parts tb < nextAddr h"
      by auto
    show ?thesis
      by (rule deref_cong) (use b low in auto)
  qed
  have dall: "\<forall>i < length (a # as). deref h' ((nextAddr h # new) ! i) = deref h ((a # as) ! i)"
  proof (intro allI impI)
    fix i assume i: "i < length (a # as)"
    show "deref h' ((nextAddr h # new) ! i) = deref h ((a # as) ! i)"
    proof (cases i)
      case 0
      then show ?thesis using d0 by simp
    next
      case (Suc j)
      with i have j: "j < length as" by simp
      with ih(5) have "deref h' (new ! j) = deref h4 (as ! j)" by blast
      also have "\<dots> = deref h (as ! j)" using dold j by simp
      finally show ?thesis using Suc by simp
    qed
  qed
  have fresh: "\<forall>r \<in> set (nextAddr h # new). nextAddr h \<le> r \<and> (\<exists>t2. structs h' r = Some t2 \<and> nextAddr h \<le> Parts t2)"
    using ih(4) s2 n4 by auto
  show ?case
    apply (rule exI[of _ "nextAddr h # new"], rule exI[of _ h'])
    using step ih(1) ih(2) keep fresh dall by simp
qed

lemma view_agree:
  assumes "wfStore h tm"
    and "\<forall>a < nextAddr h. structs h'' a = structs h a \<and> maps h'' a = maps h a"
  shows "view h'' tm = view h tm"
proof -
  have "deref h'' a = deref h a" if "a \<in> snd ` set tm" for a
  proof -
    from that assms(1) obtain t where a: "a < nextAddr h" "structs h a = Some t" "Parts t < nextAddr h"
      by (auto simp: wfStore_def split: option.splits)
    show ?thesis by (rule deref_cong) (use a assms(2) in auto)
  qed
  then have "\<forall>x \<in> set tm. (case x of (k, a) \<Rightarrow> (k, deref h'' a)) = (case x of (k, a) \<Rightarrow> (k, deref h a))"
    by force
  then show ?thesis by (simp add: view_def)
qed

text \<open>
  C9. On a store that is in order, \<open>Status\<close> returns one record for each entry of the
  \<open>transfers\<close> map, in the order of the entries, each with the fields and the completed
  parts of the node's \<open>Transfer\<close>. The node's own records are the same before and after
  the call. The records returned and their \<open>Parts\<close> maps are new objects: overwriting a
  returned record with anything, or the \<open>Parts\<close> map of a returned record with anything,
  leaves what the node's \<open>transfers\<close> map stands for unchanged.
\<close>

theorem Status_deep_copy:
  assumes "wfStore h tm"
  shows "\<exists>res h'. Status h tm = Some (res, h') \<and>
           length res = length tm \<and>
           (\<forall>i < length tm. deref h' (res ! i) = deref h (snd (tm ! i))) \<and>
           view h' tm = view h tm \<and>
           (\<forall>r \<in> set res. \<forall>v. view (h'\<lparr>structs := (structs h')(r := v)\<rparr>) tm = view h tm) \<and>
           (\<forall>r \<in> set res. \<forall>t2 m. structs h' r = Some t2 \<longrightarrow>
                view (h'\<lparr>maps := (maps h')(Parts t2 := m)\<rparr>) tm = view h tm)"
proof -
  have pre: "\<forall>a \<in> set (map snd tm). a < nextAddr h \<and> (\<exists>t. structs h a = Some t \<and> Parts t < nextAddr h)"
    using assms by (auto simp: wfStore_def split: option.splits)
  from StatusLoop_fresh[OF pre, of "[]"] obtain res h' where
    r: "StatusLoop h [] (map snd tm) = Some (res, h')"
       "length res = length tm"
       "\<forall>a < nextAddr h. structs h' a = structs h a \<and> maps h' a = maps h a"
       "\<forall>r \<in> set res. nextAddr h \<le> r \<and> (\<exists>t2. structs h' r = Some t2 \<and> nextAddr h \<le> Parts t2)"
       "\<forall>i < length (map snd tm). deref h' (res ! i) = deref h (map snd tm ! i)"
    by auto
  have v0: "view h' tm = view h tm"
    by (rule view_agree[OF assms]) (use r(3) in auto)
  have v1: "view (h'\<lparr>structs := (structs h')(x := v)\<rparr>) tm = view h tm" if "x \<in> set res" for x v
    by (rule view_agree[OF assms]) (use r(3) r(4) that in auto)
  have v2: "view (h'\<lparr>maps := (maps h')(Parts t2 := m)\<rparr>) tm = view h tm"
    if "x \<in> set res" "structs h' x = Some t2" for x t2 m
    by (rule view_agree[OF assms]) (use r(3) r(4) that in auto)
  have d: "\<forall>i < length tm. deref h' (res ! i) = deref h (snd (tm ! i))"
    using r(5) by simp
  show ?thesis
    using r(1) r(2) d v0 v1 v2 unfolding Status_def by blast
qed

theorem Status_deep_copy_witness:
  "wfStore fStore fMap \<and>
   map_option fst (Status fStore fMap) = Some [2] \<and>
   (\<exists>res h'. Status fStore fMap = Some (res, h') \<and> length res = length fMap \<and>
      (\<forall>i < length fMap. deref h' (res ! i) = deref fStore (snd (fMap ! i))) \<and>
      view h' fMap = view fStore fMap \<and>
      (\<forall>r \<in> set res. \<forall>v. view (h'\<lparr>structs := (structs h')(r := v)\<rparr>) fMap = view fStore fMap) \<and>
      (\<forall>r \<in> set res. \<forall>t2 m. structs h' r = Some t2 \<longrightarrow>
           view (h'\<lparr>maps := (maps h')(Parts t2 := m)\<rparr>) fMap = view fStore fMap))"
proof -
  have w: "wfStore fStore fMap"
    by (simp add: wfStore_def fStore_def fMap_def)
  have e: "map_option fst (Status fStore fMap) = Some [2]"
    by code_simp
  from Status_deep_copy[OF w] w e show ?thesis by blast
qed

end
